theory Spec2Isabelle
  imports Main
begin

section \<open>Time values and their formatting\<close>

text \<open>
  The server reads the clock with \<^verbatim>\<open>time.Now()\<close> and renders it with
  \<^verbatim>\<open>Time.Format\<close>. A \<open>Time\<close> is an instant (nanoseconds since the Unix epoch)
  together with the offset of its location east of UTC, in seconds. Clock readings are
  inputs of the model: every function that calls \<^verbatim>\<open>time.Now()\<close> takes one argument
  per call, in the order of the calls.
\<close>

record Time =
  unix_nano :: int
  zone_offset :: int

text \<open>\<^verbatim>\<open>t.Add(d)\<close>, with the duration \<open>d\<close> in nanoseconds.\<close>

definition Add :: "Time \<Rightarrow> int \<Rightarrow> Time" where
  "Add t d = t\<lparr>unix_nano := unix_nano t + d\<rparr>"

definition Minute :: int where
  "Minute = 60 * 1000000000"

text \<open>The calendar reading of an instant: what \<^verbatim>\<open>Format\<close> prints from.\<close>

record civil =
  c_year :: int
  c_month :: int
  c_day :: int
  c_hour :: int
  c_minute :: int
  c_second :: int
  c_nsec :: int

text \<open>
  The calendar reading of the second \<open>secs\<close> (seconds since 1970-01-01 00:00:00, in the
  zone of the reading) and of the nanosecond \<open>nsec\<close> within it. Days since 1970-01-01
  become a proleptic Gregorian date by the usual era arithmetic (400-year eras of 146097
  days, years counted from 1 March).
\<close>

definition civil_at :: "int \<Rightarrow> int \<Rightarrow> civil" where
  "civil_at secs nsec =
     (let days = secs div 86400;
          sod = secs mod 86400;
          z = days + 719468;
          era = z div 146097;
          doe = z mod 146097;
          yoe = (doe - doe div 1460 + doe div 36524 - doe div 146096) div 365;
          y = yoe + era * 400;
          doy = doe - (365 * yoe + yoe div 4 - yoe div 100);
          mp = (5 * doy + 2) div 153;
          d = doy - (153 * mp + 2) div 5 + 1;
          m = (if mp < 10 then mp + 3 else mp - 9)
      in \<lparr>c_year = (if m \<le> 2 then y + 1 else y), c_month = m, c_day = d,
          c_hour = sod div 3600, c_minute = (sod mod 3600) div 60, c_second = sod mod 60,
          c_nsec = nsec\<rparr>)"

definition civil_of :: "Time \<Rightarrow> civil" where
  "civil_of t =
     civil_at (unix_nano t div 1000000000 + zone_offset t) (unix_nano t mod 1000000000)"

text \<open>Decimal digits of a number that is not negative, most significant first.\<close>

function digits :: "int \<Rightarrow> string" where
  "digits n =
     (if n < 10 then [char_of (48 + n)]
      else digits (n div 10) @ [char_of (48 + n mod 10)])"
  by pat_completeness auto
termination
  by (relation "measure nat") auto

declare digits.simps [simp del]

text \<open>
  \<^verbatim>\<open>appendInt(b, x, width)\<close> of package time: the decimal text of \<open>x\<close>, padded with
  zeros on the left to \<open>width\<close> digits, after a minus sign when \<open>x\<close> is negative.
\<close>

definition appendInt :: "int \<Rightarrow> nat \<Rightarrow> string" where
  "appendInt x width =
     (let ds = digits \<bar>x\<bar>
      in (if x < 0 then ''-'' else '''') @ replicate (width - length ds) CHR ''0'' @ ds)"

definition starts :: "string \<Rightarrow> string \<Rightarrow> bool" where
  "starts p l = (take (length p) l = p)"

definition isDigit :: "string \<Rightarrow> bool" where
  "isDigit l = (case l of [] \<Rightarrow> False | c # _ \<Rightarrow> (48::nat) \<le> of_char c \<and> of_char c \<le> (57::nat))"

text \<open>
  \<^verbatim>\<open>Time.Format(layout)\<close>. Go scans the layout from the left; at each position it looks
  for a layout element and copies every other byte as it is. The elements modelled are
  the ones a layout of this program can contain, and the one that prints a fraction of a
  second:
  \<^item> \<^verbatim>\<open>2006\<close> the year, \<^verbatim>\<open>01\<close> the month, \<^verbatim>\<open>02\<close> the day, \<^verbatim>\<open>15\<close> the hour,
    \<^verbatim>\<open>04\<close> the minute, \<^verbatim>\<open>05\<close> the second, each padded with zeros;
  \<^item> a \<^verbatim>\<open>.\<close> or \<^verbatim>\<open>,\<close> followed by a run of \<^verbatim>\<open>0\<close> that no digit follows: the separator
    and that many digits of the nanosecond.
  Go has no element that starts with \<^verbatim>\<open>00\<close> other than \<^verbatim>\<open>002\<close> (the day of the year),
  and it recognises a fraction of a second only after a \<^verbatim>\<open>.\<close> or a \<^verbatim>\<open>,\<close>. The other
  elements of Go (names of months and days, \<^verbatim>\<open>1\<close>, \<^verbatim>\<open>2\<close>, \<^verbatim>\<open>_2\<close>, \<^verbatim>\<open>002\<close>, \<^verbatim>\<open>03\<close>,
  \<^verbatim>\<open>3\<close>, \<^verbatim>\<open>4\<close>, \<^verbatim>\<open>5\<close>, \<^verbatim>\<open>06\<close>, \<^verbatim>\<open>PM\<close>, zones, \<^verbatim>\<open>.999\<close>) occur in no layout of this program
  and are not modelled.
\<close>

function format_layout :: "civil \<Rightarrow> string \<Rightarrow> string" where
  "format_layout c l =
     (if l = [] then []
      else if starts ''2006'' l then appendInt (c_year c) 4 @ format_layout c (drop 4 l)
      else if starts ''01'' l then appendInt (c_month c) 2 @ format_layout c (drop 2 l)
      else if starts ''02'' l then appendInt (c_day c) 2 @ format_layout c (drop 2 l)
      else if starts ''15'' l then appendInt (c_hour c) 2 @ format_layout c (drop 2 l)
      else if starts ''04'' l then appendInt (c_minute c) 2 @ format_layout c (drop 2 l)
      else if starts ''05'' l then appendInt (c_second c) 2 @ format_layout c (drop 2 l)
      else if (hd l = CHR ''.'' \<or> hd l = CHR '','') \<and> starts ''0'' (tl l)
              \<and> \<not> isDigit (dropWhile (\<lambda>x. x = CHR ''0'') (tl l))
        then hd l # take (length (takeWhile (\<lambda>x. x = CHR ''0'') (tl l))) (appendInt (c_nsec c) 9)
               @ format_layout c (dropWhile (\<lambda>x. x = CHR ''0'') (tl l))
      else hd l # format_layout c (tl l))"
  by pat_completeness auto
termination
proof (relation "measure (\<lambda>(c, l). length l)")
  fix c :: civil and l :: string
  assume "l \<noteq> []"
  have "length (dropWhile (\<lambda>x. x = CHR ''0'') (tl l)) \<le> length (tl l)"
    by (rule length_dropWhile_le)
  with \<open>l \<noteq> []\<close>
  show "((c, dropWhile (\<lambda>x. x = CHR ''0'') (tl l)), (c, l)) \<in> measure (\<lambda>(c, l). length l)"
    by (cases l) auto
qed (auto simp: starts_def)

declare format_layout.simps [simp del]

definition Format :: "Time \<Rightarrow> string \<Rightarrow> string" where
  "Format t layout = format_layout (civil_of t) layout"

section \<open>Domain model\<close>

text \<open>\<^verbatim>\<open>type Notification struct\<close>. Go strings are byte sequences, as \<open>string\<close> is.\<close>

record Notification =
  ID :: string
  Title :: string
  Message :: string
  Timestamp :: Time
  Read :: bool

text \<open>
  The errors of the server are built with \<^verbatim>\<open>errors.New\<close> and \<^verbatim>\<open>fmt.Errorf\<close>; an
  error value carries its message. The constructors name the kinds of failure: a
  rejected argument, a missing record, an unknown frame type, and a failed write or read
  on a connection.
\<close>

datatype error =
    InvalidArgument string
  | NotFound string
  | UnknownMessageType string
  | ConnectionFailure

section \<open>In-memory repository\<close>

text \<open>
  \<^verbatim>\<open>InMemoryNotificationRepository\<close>: the slice of notifications. Each method takes
  the lock for its whole body, so a method is one atomic step on the slice; the model
  passes the slice in and returns the new one together with the method's result.
\<close>

record InMemoryNotificationRepository =
  notifications :: "Notification list"

definition seed_title_1 :: string where
  "seed_title_1 =
     [CHR 0xE3, CHR 0x82, CHR 0xB7, CHR 0xE3, CHR 0x82, CHR 0xB9, CHR 0xE3, CHR 0x83, CHR 0x86,
      CHR 0xE3, CHR 0x83, CHR 0xA0, CHR 0xE8, CHR 0xB5, CHR 0xB7, CHR 0xE5, CHR 0x8B, CHR 0x95]"

definition seed_message_1 :: string where
  "seed_message_1 =
     [CHR 0x4E, CHR 0x6F, CHR 0x74, CHR 0x69, CHR 0x62, CHR 0x61, CHR 0x67, CHR 0xE3, CHR 0x81,
      CHR 0x8C, CHR 0xE6, CHR 0xAD, CHR 0xA3, CHR 0xE5, CHR 0xB8, CHR 0xB8, CHR 0xE3, CHR 0x81,
      CHR 0xAB, CHR 0xE8, CHR 0xB5, CHR 0xB7, CHR 0xE5, CHR 0x8B, CHR 0x95, CHR 0xE3, CHR 0x81,
      CHR 0x97, CHR 0xE3, CHR 0x81, CHR 0xBE, CHR 0xE3, CHR 0x81, CHR 0x97, CHR 0xE3, CHR 0x81,
      CHR 0x9F]"

definition seed_title_2 :: string where
  "seed_title_2 =
     [CHR 0xE9, CHR 0x87, CHR 0x8D, CHR 0xE8, CHR 0xA6, CHR 0x81, CHR 0xE3, CHR 0x81, CHR 0xAA,
      CHR 0xE6, CHR 0x9B, CHR 0xB4, CHR 0xE6, CHR 0x96, CHR 0xB0]"

definition seed_message_2 :: string where
  "seed_message_2 =
     [CHR 0xE6, CHR 0x96, CHR 0xB0, CHR 0xE3, CHR 0x81, CHR 0x97, CHR 0xE3, CHR 0x81, CHR 0x84,
      CHR 0xE3, CHR 0x83, CHR 0x90, CHR 0xE3, CHR 0x83, CHR 0xBC, CHR 0xE3, CHR 0x82, CHR 0xB8,
      CHR 0xE3, CHR 0x83, CHR 0xA7, CHR 0xE3, CHR 0x83, CHR 0xB3, CHR 0xE3, CHR 0x81, CHR 0x8C,
      CHR 0xE5, CHR 0x88, CHR 0xA9, CHR 0xE7, CHR 0x94, CHR 0xA8, CHR 0xE5, CHR 0x8F, CHR 0xAF,
      CHR 0xE8, CHR 0x83, CHR 0xBD, CHR 0xE3, CHR 0x81, CHR 0xA7, CHR 0xE3, CHR 0x81, CHR 0x99,
      CHR 0xE3, CHR 0x80, CHR 0x82, CHR 0xE3, CHR 0x82, CHR 0xA2, CHR 0xE3, CHR 0x83, CHR 0x83,
      CHR 0xE3, CHR 0x83, CHR 0x97, CHR 0xE3, CHR 0x83, CHR 0x87, CHR 0xE3, CHR 0x83, CHR 0xBC,
      CHR 0xE3, CHR 0x83, CHR 0x88, CHR 0xE3, CHR 0x82, CHR 0x92, CHR 0xE7, CHR 0xA2, CHR 0xBA,
      CHR 0xE8, CHR 0xAA, CHR 0x8D, CHR 0xE3, CHR 0x81, CHR 0x97, CHR 0xE3, CHR 0x81, CHR 0xA6,
      CHR 0xE3, CHR 0x81, CHR 0x8F, CHR 0xE3, CHR 0x81, CHR 0xA0, CHR 0xE3, CHR 0x81, CHR 0x95,
      CHR 0xE3, CHR 0x81, CHR 0x84, CHR 0xE3, CHR 0x80, CHR 0x82]"

text \<open>
  \<^verbatim>\<open>NewInMemoryNotificationRepository()\<close>; \<open>now1\<close> and \<open>now2\<close> are its two clock
  readings. The titles and messages are the UTF-8 bytes of the source's literals.
\<close>

definition NewInMemoryNotificationRepository :: "Time \<Rightarrow> Time \<Rightarrow> InMemoryNotificationRepository" where
  "NewInMemoryNotificationRepository now1 now2 =
     \<lparr>notifications =
        [\<lparr>ID = ''1'', Title = seed_title_1, Message = seed_message_1,
          Timestamp = Add now1 (- 5 * Minute), Read = False\<rparr>,
         \<lparr>ID = ''2'', Title = seed_title_2, Message = seed_message_2,
          Timestamp = Add now2 (- 2 * Minute), Read = False\<rparr>]\<rparr>"

text \<open>\<^verbatim>\<open>GetUnread\<close>: the loop appends every record whose flag is unset, in order.\<close>

fun unread_loop :: "Notification list \<Rightarrow> Notification list \<Rightarrow> Notification list" where
  "unread_loop unread [] = unread"
| "unread_loop unread (notification # rest) =
     (if \<not> Read notification then unread_loop (unread @ [notification]) rest
      else unread_loop unread rest)"

definition GetUnread :: "InMemoryNotificationRepository \<Rightarrow> Notification list" where
  "GetUnread r = unread_loop [] (notifications r)"

text \<open>\<^verbatim>\<open>GetAll\<close>: a copy of the slice.\<close>

definition GetAll :: "InMemoryNotificationRepository \<Rightarrow> Notification list" where
  "GetAll r = notifications r"

text \<open>\<^verbatim>\<open>Create\<close>: the new record goes in front; the method returns \<^verbatim>\<open>nil\<close>.\<close>

definition Create ::
  "Notification \<Rightarrow> InMemoryNotificationRepository \<Rightarrow> error option \<times> InMemoryNotificationRepository" where
  "Create notification r =
     (None, r\<lparr>notifications := [notification] @ notifications r\<rparr>)"

text \<open>
  \<^verbatim>\<open>MarkAsRead\<close>: \<^verbatim>\<open>for i := range r.notifications\<close> from index \<open>i\<close> on. The first
  record with the identifier gets its flag set and the method returns; when the loop
  ends the method returns the error.
\<close>

function MarkAsRead_from ::
  "nat \<Rightarrow> string \<Rightarrow> Notification list \<Rightarrow> error option \<times> Notification list" where
  "MarkAsRead_from i id' ns =
     (if i < length ns then
        (if ID (ns ! i) = id' then (None, ns[i := (ns ! i)\<lparr>Read := True\<rparr>])
         else MarkAsRead_from (i + 1) id' ns)
      else (Some (NotFound ''notification not found''), ns))"
  by pat_completeness auto
termination
  by (relation "measure (\<lambda>(i, id', ns). length ns - i)") auto

declare MarkAsRead_from.simps [simp del]

definition MarkAsRead ::
  "string \<Rightarrow> InMemoryNotificationRepository \<Rightarrow> error option \<times> InMemoryNotificationRepository" where
  "MarkAsRead id' r =
     (case MarkAsRead_from 0 id' (notifications r) of
        (e, ns) \<Rightarrow> (e, r\<lparr>notifications := ns\<rparr>))"

text \<open>\<^verbatim>\<open>Clear\<close>: the slice becomes empty; the method returns \<^verbatim>\<open>nil\<close>.\<close>

definition Clear ::
  "InMemoryNotificationRepository \<Rightarrow> error option \<times> InMemoryNotificationRepository" where
  "Clear r = (None, r\<lparr>notifications := []\<rparr>)"

section \<open>Service\<close>

text \<open>
  \<^verbatim>\<open>generateID()\<close> reads the clock twice: once for the layout of the date and the
  time of day, once for the layout \<^verbatim>\<open>000\<close>.
\<close>

definition generateID :: "Time \<Rightarrow> Time \<Rightarrow> string" where
  "generateID now1 now2 = Format now1 ''20060102150405'' @ ''-'' @ Format now2 ''000''"

definition GetUnreadNotifications :: "InMemoryNotificationRepository \<Rightarrow> Notification list" where
  "GetUnreadNotifications r = GetUnread r"

text \<open>
  \<^verbatim>\<open>CreateNotification(title, message)\<close>. \<open>now1\<close> and \<open>now2\<close> are the clock readings
  of \<^verbatim>\<open>generateID\<close>, \<open>now3\<close> the one of the timestamp. The result is the error or the
  created record, and the repository after the call.
\<close>

definition CreateNotification ::
  "string \<Rightarrow> string \<Rightarrow> Time \<Rightarrow> Time \<Rightarrow> Time \<Rightarrow> InMemoryNotificationRepository
     \<Rightarrow> (error + Notification) \<times> InMemoryNotificationRepository" where
  "CreateNotification title message now1 now2 now3 r =
     (if title = '''' \<or> message = '''' then
        (Inl (InvalidArgument ''title and message are required''), r)
      else
        (let notification =
               \<lparr>ID = generateID now1 now2, Title = title, Message = message,
                Timestamp = now3, Read = False\<rparr>
         in case Create notification r of
              (Some err, r') \<Rightarrow> (Inl err, r')
            | (None, r') \<Rightarrow> (Inr notification, r')))"

definition MarkNotificationAsRead ::
  "string \<Rightarrow> InMemoryNotificationRepository \<Rightarrow> error option \<times> InMemoryNotificationRepository" where
  "MarkNotificationAsRead id' r =
     (if id' = '''' then (Some (InvalidArgument ''notification ID is required''), r)
      else MarkAsRead id' r)"

definition ClearAllNotifications ::
  "InMemoryNotificationRepository \<Rightarrow> error option \<times> InMemoryNotificationRepository" where
  "ClearAllNotifications r = Clear r"

section \<open>WebSocket manager\<close>

text \<open>
  A \<^verbatim>\<open>*websocket.Conn\<close> is known by its identity. \<^verbatim>\<open>WSMessage\<close> is the frame of
  the protocol, in both directions.
\<close>

type_synonym Conn = nat

record WSMessage =
  Type :: string
  Notification :: "Notification option"
  Notifications :: "Notification list"
  NotificationID :: string

text \<open>\<^verbatim>\<open>WSManagerImpl\<close>: the map \<^verbatim>\<open>clients\<close>, from connections to \<^verbatim>\<open>bool\<close>.\<close>

record WSManagerImpl =
  clients :: "Conn \<rightharpoonup> bool"

text \<open>
  What the server does to the outside: every call of \<^verbatim>\<open>WriteJSON\<close> with its
  connection and its frame, in the order of the calls; the frames that reached each
  connection (oldest first); the connections it has closed; and the lines of its log.
\<close>

datatype log_line =
    BroadcastError error
  | ReadError error
  | HandlingError error

record Outside =
  written :: "(Conn \<times> WSMessage) list"
  outbox :: "Conn \<Rightarrow> WSMessage list"
  closed :: "Conn set"
  logged :: "log_line list"

definition NewWSManager :: WSManagerImpl where
  "NewWSManager = \<lparr>clients = Map.empty\<rparr>"

definition AddClient :: "Conn \<Rightarrow> WSManagerImpl \<Rightarrow> WSManagerImpl" where
  "AddClient conn w = w\<lparr>clients := (clients w)(conn \<mapsto> True)\<rparr>"

definition RemoveClient :: "Conn \<Rightarrow> WSManagerImpl \<Rightarrow> WSManagerImpl" where
  "RemoveClient conn w = w\<lparr>clients := (clients w)(conn := None)\<rparr>"

text \<open>
  \<^verbatim>\<open>conn.WriteJSON(v)\<close>. Whether the write on a connection fails is decided outside
  the program: \<open>fails conn\<close> says so. A write that succeeds puts the frame on the
  connection; one that fails puts nothing there and returns an error.
\<close>

definition WriteJSON ::
  "(Conn \<Rightarrow> bool) \<Rightarrow> Conn \<Rightarrow> WSMessage \<Rightarrow> Outside \<Rightarrow> error option \<times> Outside" where
  "WriteJSON fails conn v out =
     (let out' = out\<lparr>written := written out @ [(conn, v)]\<rparr>
      in if fails conn then (Some ConnectionFailure, out')
         else (None, out'\<lparr>outbox := (outbox out')(conn := outbox out' conn @ [v])\<rparr>))"

definition Close :: "Conn \<Rightarrow> Outside \<Rightarrow> Outside" where
  "Close conn out = out\<lparr>closed := insert conn (closed out)\<rparr>"

definition Printf :: "log_line \<Rightarrow> Outside \<Rightarrow> Outside" where
  "Printf line out = out\<lparr>logged := logged out @ [line]\<rparr>"

text \<open>
  The loop of \<^verbatim>\<open>BroadcastNotification\<close>, \<^verbatim>\<open>for client := range w.clients\<close>, over the
  keys still to visit. Go visits every key of the map once, in an order of its choice;
  deleting the key being visited is allowed.
\<close>

fun broadcast_loop ::
  "(Conn \<Rightarrow> bool) \<Rightarrow> WSMessage \<Rightarrow> Conn list \<Rightarrow> WSManagerImpl \<times> Outside
     \<Rightarrow> WSManagerImpl \<times> Outside" where
  "broadcast_loop fails message [] (w, out) = (w, out)"
| "broadcast_loop fails message (client # rest) (w, out) =
     (case WriteJSON fails client message out of
        (Some err, out') \<Rightarrow>
          broadcast_loop fails message rest
            (w\<lparr>clients := (clients w)(client := None)\<rparr>,
             Close client (Printf (BroadcastError err) out'))
      | (None, out') \<Rightarrow> broadcast_loop fails message rest (w, out'))"

text \<open>
  \<^verbatim>\<open>BroadcastNotification(notification)\<close>; \<open>order\<close> is the order in which the range
  loop visits the keys of \<^verbatim>\<open>w.clients\<close>. The method returns nothing.
\<close>

definition BroadcastNotification ::
  "(Conn \<Rightarrow> bool) \<Rightarrow> Conn list \<Rightarrow> Notification \<Rightarrow> WSManagerImpl \<times> Outside
     \<Rightarrow> WSManagerImpl \<times> Outside" where
  "BroadcastNotification fails order notification st =
     (let message = \<lparr>Type = ''notification'', Notification = Some notification,
                     Notifications = [], NotificationID = ''''\<rparr>
      in broadcast_loop fails message order st)"

text \<open>\<^verbatim>\<open>HandleMessage(conn, msg)\<close>: the switch on the type of the frame.\<close>

definition HandleMessage ::
  "(Conn \<Rightarrow> bool) \<Rightarrow> Conn \<Rightarrow> WSMessage \<Rightarrow> InMemoryNotificationRepository \<times> Outside
     \<Rightarrow> error option \<times> InMemoryNotificationRepository \<times> Outside" where
  "HandleMessage fails conn msg st =
     (case st of (r, out) \<Rightarrow>
        if Type msg = ''get_notifications'' then
          (let notifications' = GetUnreadNotifications r;
               response = \<lparr>Type = ''notifications_list'', Notification = None,
                            Notifications = notifications', NotificationID = ''''\<rparr>
           in case WriteJSON fails conn response out of (e, out') \<Rightarrow> (e, r, out'))
        else if Type msg = ''mark_read'' then
          (if NotificationID msg \<noteq> '''' then
             (case MarkNotificationAsRead (NotificationID msg) r of (e, r') \<Rightarrow> (e, r', out))
           else (Some (InvalidArgument ''notification ID is required''), r, out))
        else if Type msg = ''clear_all'' then
          (case ClearAllNotifications r of (e, r') \<Rightarrow> (e, r', out))
        else (Some (UnknownMessageType (''unknown message type: '' @ Type msg)), r, out))"

text \<open>
  The body of the read loop of \<^verbatim>\<open>HandleWebSocket\<close> for one frame that was read: the
  frame is handled, and an error of the handler goes to the log.
\<close>

definition handle_frame ::
  "(Conn \<Rightarrow> bool) \<Rightarrow> Conn \<Rightarrow> WSMessage \<Rightarrow> InMemoryNotificationRepository \<times> Outside
     \<Rightarrow> InMemoryNotificationRepository \<times> Outside" where
  "handle_frame fails conn msg st =
     (case HandleMessage fails conn msg st of
        (Some err, r', out') \<Rightarrow> (r', Printf (HandlingError err) out')
      | (None, r', out') \<Rightarrow> (r', out'))"

text \<open>
  The read loop over the frames that arrive before the read fails; then the loop breaks
  and the failed read is logged.
\<close>

fun read_loop ::
  "(Conn \<Rightarrow> bool) \<Rightarrow> Conn \<Rightarrow> WSMessage list \<Rightarrow> InMemoryNotificationRepository \<times> Outside
     \<Rightarrow> InMemoryNotificationRepository \<times> Outside" where
  "read_loop fails conn [] (r, out) = (r, Printf (ReadError ConnectionFailure) out)"
| "read_loop fails conn (msg # rest) (r, out) =
     read_loop fails conn rest (handle_frame fails conn msg (r, out))"

section \<open>Sequences of operations on the repository\<close>

text \<open>
  The operations that reach the repository: its own methods and the methods of the
  service. \<open>step\<close> is the repository after one of them, whatever it returned.
\<close>

datatype op =
    OpGetUnread
  | OpGetAll
  | OpCreate Notification
  | OpMarkAsRead string
  | OpClear
  | OpGetUnreadNotifications
  | OpCreateNotification string string Time Time Time
  | OpMarkNotificationAsRead string
  | OpClearAllNotifications

fun step :: "op \<Rightarrow> InMemoryNotificationRepository \<Rightarrow> InMemoryNotificationRepository" where
  "step OpGetUnread r = r"
| "step OpGetAll r = r"
| "step (OpCreate n) r = snd (Create n r)"
| "step (OpMarkAsRead i) r = snd (MarkAsRead i r)"
| "step OpClear r = snd (Clear r)"
| "step OpGetUnreadNotifications r = r"
| "step (OpCreateNotification title message now1 now2 now3) r =
     snd (CreateNotification title message now1 now2 now3 r)"
| "step (OpMarkNotificationAsRead i) r = snd (MarkNotificationAsRead i r)"
| "step OpClearAllNotifications r = snd (ClearAllNotifications r)"

fun run :: "op list \<Rightarrow> InMemoryNotificationRepository \<Rightarrow> InMemoryNotificationRepository" where
  "run [] r = r"
| "run (x # xs) r = run xs (step x r)"

fun clears :: "op \<Rightarrow> bool" where
  "clears OpClear = True"
| "clears OpClearAllNotifications = True"
| "clears _ = False"

text \<open>
  A record \<open>b\<close> is a later state of the record \<open>a\<close>: the same identifier, title, message
  and timestamp, and a read flag that has not gone back to unread.
\<close>

definition later_state :: "Notification \<Rightarrow> Notification \<Rightarrow> bool" where
  "later_state a b \<longleftrightarrow>
     ID b = ID a \<and> Title b = Title a \<and> Message b = Message a \<and> Timestamp b = Timestamp a
     \<and> (Read a \<longrightarrow> Read b)"

text \<open>
  The records \<open>old\<close> persist in \<open>new\<close>: \<open>new\<close> is some records followed by a later state
  of each record of \<open>old\<close>, in the order of \<open>old\<close>.
\<close>

definition persists :: "Notification list \<Rightarrow> Notification list \<Rightarrow> bool" where
  "persists old new \<longleftrightarrow> (\<exists>pre t. new = pre @ t \<and> list_all2 later_state old t)"

section \<open>Notions of the specification and sample inputs\<close>

text \<open>
  Following the specification's words "empty after trimming": the string without its
  leading and trailing white space (space, tab, line feed, vertical tab, form feed,
  carriage return). The source has no such function.
\<close>

definition trim_space :: "string \<Rightarrow> string" where
  "trim_space s =
     (let ws = (\<lambda>c. c \<in> set [CHR '' '', CHR 0x09, CHR 0x0A, CHR 0x0B, CHR 0x0C, CHR 0x0D])
      in rev (dropWhile ws (rev (dropWhile ws s))))"

text \<open>Clock readings on 1 January 2024, UTC: noon, and 100 ms and 900 ms after noon.\<close>

definition noon :: Time where
  "noon = \<lparr>unix_nano = 1704110400000000000, zone_offset = 0\<rparr>"

definition noon_100ms :: Time where
  "noon_100ms = \<lparr>unix_nano = 1704110400100000000, zone_offset = 0\<rparr>"

definition noon_900ms :: Time where
  "noon_900ms = \<lparr>unix_nano = 1704110400900000000, zone_offset = 0\<rparr>"

definition build_done :: Notification where
  "build_done =
     \<lparr>ID = ''20240101120000-000'', Title = ''Build done'', Message = ''Target X compiled'',
      Timestamp = noon, Read = False\<rparr>"

section \<open>The repository's loops\<close>

lemma unread_loop_filter: "unread_loop acc ns = acc @ filter (\<lambda>n. \<not> Read n) ns"
  by (induction ns arbitrary: acc) simp_all

lemma GetUnread_filter: "GetUnread r = filter (\<lambda>n. \<not> Read n) (notifications r)"
  by (simp add: GetUnread_def unread_loop_filter)

lemma MarkAsRead_from_absent:
  "(\<And>j. i \<le> j \<Longrightarrow> j < length ns \<Longrightarrow> ID (ns ! j) \<noteq> x) \<Longrightarrow>
   MarkAsRead_from i x ns = (Some (NotFound ''notification not found''), ns)"
proof (induction i x ns rule: MarkAsRead_from.induct)
  case (1 i x ns)
  show ?case
  proof (cases "i < length ns")
    case True
    then have ne: "ID (ns ! i) \<noteq> x" using "1.prems" by simp
    have "MarkAsRead_from (i + 1) x ns = (Some (NotFound ''notification not found''), ns)"
      using True ne "1.prems" by (intro "1.IH") auto
    then show ?thesis using True ne by (subst MarkAsRead_from.simps) simp
  next
    case False
    then show ?thesis by (subst MarkAsRead_from.simps) simp
  qed
qed

lemma MarkAsRead_from_first:
  "i \<le> k \<Longrightarrow> k < length ns \<Longrightarrow> ID (ns ! k) = x \<Longrightarrow>
   (\<And>j. i \<le> j \<Longrightarrow> j < k \<Longrightarrow> ID (ns ! j) \<noteq> x) \<Longrightarrow>
   MarkAsRead_from i x ns = (None, ns[k := (ns ! k)\<lparr>Read := True\<rparr>])"
proof (induction i x ns rule: MarkAsRead_from.induct)
  case (1 i x ns)
  have lt: "i < length ns" using "1.prems" by simp
  show ?case
  proof (cases "i = k")
    case True
    then show ?thesis using "1.prems" by (subst MarkAsRead_from.simps) simp
  next
    case False
    then have ik: "i < k" using "1.prems" by simp
    then have ne: "ID (ns ! i) \<noteq> x" using "1.prems" by simp
    have "MarkAsRead_from (i + 1) x ns = (None, ns[k := (ns ! k)\<lparr>Read := True\<rparr>])"
      using lt ne ik "1.prems" by (intro "1.IH") auto
    then show ?thesis using lt ne by (subst MarkAsRead_from.simps) simp
  qed
qed

lemma first_match_exists:
  "x \<in> ID ` set ns \<Longrightarrow> \<exists>k < length ns. ID (ns ! k) = x \<and> (\<forall>j < k. ID (ns ! j) \<noteq> x)"
proof -
  assume "x \<in> ID ` set ns"
  then have ex: "\<exists>k. k < length ns \<and> ID (ns ! k) = x"
    by (auto simp: in_set_conv_nth)
  define k where "k = (LEAST k. k < length ns \<and> ID (ns ! k) = x)"
  have a: "k < length ns \<and> ID (ns ! k) = x"
    unfolding k_def using ex by (rule LeastI_ex)
  have b: "\<forall>j < k. ID (ns ! j) \<noteq> x"
  proof (intro allI impI notI)
    fix j assume "j < k" "ID (ns ! j) = x"
    then have "j < length ns \<and> ID (ns ! j) = x" using a by simp
    then have "k \<le> j" unfolding k_def by (rule Least_le)
    with \<open>j < k\<close> show False by simp
  qed
  from a b show ?thesis by blast
qed

section \<open>Formatting of identifiers\<close>

lemma format_layout_000: "format_layout c ''000'' = ''000''"
  by (simp add: format_layout.simps [of c "''000''"] format_layout.simps [of c "''00''"]
      format_layout.simps [of c "''0''"] format_layout.simps [of c "[]"] starts_def)

lemma format_layout_date_time:
  "format_layout c ''20060102150405''
     = appendInt (c_year c) 4 @ appendInt (c_month c) 2 @ appendInt (c_day c) 2
       @ appendInt (c_hour c) 2 @ appendInt (c_minute c) 2 @ appendInt (c_second c) 2"
  by (simp add: format_layout.simps [of c "''20060102150405''"]
      format_layout.simps [of c "''0102150405''"] format_layout.simps [of c "''02150405''"]
      format_layout.simps [of c "''150405''"] format_layout.simps [of c "''0405''"]
      format_layout.simps [of c "''05''"] format_layout.simps [of c "[]"] starts_def)

lemma generateID_unfold:
  "generateID now1 now2
     = appendInt (c_year (civil_of now1)) 4 @ appendInt (c_month (civil_of now1)) 2
       @ appendInt (c_day (civil_of now1)) 2 @ appendInt (c_hour (civil_of now1)) 2
       @ appendInt (c_minute (civil_of now1)) 2 @ appendInt (c_second (civil_of now1)) 2
       @ ''-000''"
  by (simp add: generateID_def Format_def format_layout_000 format_layout_date_time)

lemma civil_at_nsec: "civil_at secs nsec = (civil_at secs 0)\<lparr>c_nsec := nsec\<rparr>"
  by (simp only: civil_at_def Let_def civil.simps)

lemma generateID_same_second:
  assumes "unix_nano a div 1000000000 = unix_nano b div 1000000000"
    and "zone_offset a = zone_offset b"
  shows "generateID a a' = generateID b b'"
proof -
  have "civil_of a = (civil_of b)\<lparr>c_nsec := unix_nano a mod 1000000000\<rparr>"
    unfolding civil_of_def assms
    by (subst civil_at_nsec, subst (2) civil_at_nsec) simp
  then show ?thesis by (simp add: generateID_unfold)
qed

lemma milliseconds_layout:
  "Format noon_100ms ''.000'' = ''.100'' \<and> Format noon_900ms ''.000'' = ''.900''"
  unfolding noon_100ms_def noon_900ms_def by code_simp

section \<open>The registry and the broadcast loop\<close>

lemma RemoveClient_twice: "RemoveClient conn (RemoveClient conn w) = RemoveClient conn w"
  by (simp add: RemoveClient_def)

lemma AddClient_registers: "conn \<in> dom (clients (AddClient conn w))"
  by (simp add: AddClient_def)

lemma RemoveClient_unregisters:
  "dom (clients (RemoveClient conn w)) = dom (clients w) - {conn}"
  by (auto simp: RemoveClient_def)

lemma broadcast_loop_clients:
  "clients (fst (broadcast_loop fails m cs (w, out)))
     = (\<lambda>c. if c \<in> set cs \<and> fails c then None else clients w c)"
  by (induction cs arbitrary: w out) (auto simp: WriteJSON_def Let_def fun_eq_iff)

lemma broadcast_loop_written:
  "written (snd (broadcast_loop fails m cs (w, out))) = written out @ map (\<lambda>c. (c, m)) cs"
  by (induction cs arbitrary: w out) (auto simp: WriteJSON_def Let_def Close_def Printf_def)

lemma broadcast_loop_outbox:
  "distinct cs \<Longrightarrow>
   outbox (snd (broadcast_loop fails m cs (w, out)))
     = (\<lambda>c. if c \<in> set cs \<and> \<not> fails c then outbox out c @ [m] else outbox out c)"
  by (induction cs arbitrary: w out)
     (auto simp: WriteJSON_def Let_def Close_def Printf_def fun_eq_iff)

lemma broadcast_loop_closed:
  "closed (snd (broadcast_loop fails m cs (w, out))) = closed out \<union> {c \<in> set cs. fails c}"
  by (induction cs arbitrary: w out) (auto simp: WriteJSON_def Let_def Close_def Printf_def)

section \<open>The switch of the protocol handler\<close>

lemma HandleMessage_get_notifications:
  "Type msg = ''get_notifications'' \<Longrightarrow>
   HandleMessage fails conn msg (r, out)
     = (case WriteJSON fails conn \<lparr>Type = ''notifications_list'', Notification = None,
                                     Notifications = GetUnread r, NotificationID = ''''\<rparr> out of
          (e, out') \<Rightarrow> (e, r, out'))"
  by (simp add: HandleMessage_def GetUnreadNotifications_def Let_def)

lemma HandleMessage_other_outside:
  "Type msg \<noteq> ''get_notifications'' \<Longrightarrow>
   snd (snd (HandleMessage fails conn msg (r, out))) = out"
  by (simp add: HandleMessage_def split: prod.splits)

lemma handle_frame_written:
  "written (snd (handle_frame fails conn msg (r, out)))
     = written out @
       (if Type msg = ''get_notifications''
        then [(conn, \<lparr>Type = ''notifications_list'', Notification = None,
                       Notifications = GetUnread r, NotificationID = ''''\<rparr>)]
        else [])"
proof (cases "Type msg = ''get_notifications''")
  case True
  then show ?thesis
    by (simp add: handle_frame_def HandleMessage_get_notifications WriteJSON_def Let_def
        Printf_def)
next
  case False
  obtain e r' out' where h: "HandleMessage fails conn msg (r, out) = (e, r', out')"
    by (cases "HandleMessage fails conn msg (r, out)") auto
  have "out' = out"
    using HandleMessage_other_outside [OF False, of fails conn r out] h by simp
  then show ?thesis
    using False by (simp add: handle_frame_def h Printf_def split: option.splits)
qed

lemma read_loop_written:
  "\<exists>fs. written (snd (read_loop fails conn msgs (r, out))) = written out @ map (Pair conn) fs
         \<and> length fs = length (filter (\<lambda>m. Type m = ''get_notifications'') msgs)
         \<and> (\<forall>f \<in> set fs. Type f = ''notifications_list'')"
proof (induction msgs arbitrary: r out)
  case Nil
  show ?case by (simp add: Printf_def)
next
  case (Cons msg rest)
  obtain r1 out1 where s: "handle_frame fails conn msg (r, out) = (r1, out1)"
    by (cases "handle_frame fails conn msg (r, out)") auto
  from Cons.IH [of r1 out1] obtain fs where
    fs: "written (snd (read_loop fails conn rest (r1, out1))) = written out1 @ map (Pair conn) fs"
      "length fs = length (filter (\<lambda>m. Type m = ''get_notifications'') rest)"
      "\<forall>f \<in> set fs. Type f = ''notifications_list''"
    by blast
  have w1: "written out1 = written out @
       (if Type msg = ''get_notifications''
        then [(conn, \<lparr>Type = ''notifications_list'', Notification = None,
                       Notifications = GetUnread r, NotificationID = ''''\<rparr>)]
        else [])"
    using handle_frame_written [of fails conn msg r out] s by simp
  show ?case
  proof (cases "Type msg = ''get_notifications''")
    case True
    have "written (snd (read_loop fails conn (msg # rest) (r, out)))
            = written out @ map (Pair conn)
                (\<lparr>Type = ''notifications_list'', Notification = None,
                  Notifications = GetUnread r, NotificationID = ''''\<rparr> # fs)"
      using True s fs(1) w1 by simp
    moreover have "length (\<lparr>Type = ''notifications_list'', Notification = None,
                  Notifications = GetUnread r, NotificationID = ''''\<rparr> # fs)
            = length (filter (\<lambda>m. Type m = ''get_notifications'') (msg # rest))"
      using True fs(2) by simp
    moreover have "\<forall>f \<in> set (\<lparr>Type = ''notifications_list'', Notification = None,
                  Notifications = GetUnread r, NotificationID = ''''\<rparr> # fs).
                  Type f = ''notifications_list''"
      using fs(3) by simp
    ultimately show ?thesis by blast
  next
    case False
    have "written (snd (read_loop fails conn (msg # rest) (r, out)))
            = written out @ map (Pair conn) fs"
      using False s fs(1) w1 by simp
    moreover have "length fs = length (filter (\<lambda>m. Type m = ''get_notifications'') (msg # rest))"
      using False fs(2) by simp
    ultimately show ?thesis using fs(3) by blast
  qed
qed

section \<open>Records over sequences of operations\<close>

lemma later_state_refl: "later_state a a"
  by (simp add: later_state_def)

lemma later_state_trans: "later_state a b \<Longrightarrow> later_state b c \<Longrightarrow> later_state a c"
  by (simp add: later_state_def)

lemma later_state_mark: "later_state a (a\<lparr>Read := True\<rparr>)"
  by (simp add: later_state_def)

lemma MarkAsRead_from_later:
  "list_all2 later_state ns (snd (MarkAsRead_from i x ns))"
proof (induction i x ns rule: MarkAsRead_from.induct)
  case (1 i x ns)
  show ?case
  proof (cases "i < length ns \<and> ID (ns ! i) = x")
    case True
    then have "snd (MarkAsRead_from i x ns) = ns[i := (ns ! i)\<lparr>Read := True\<rparr>]"
      by (subst MarkAsRead_from.simps) simp
    then show ?thesis
      using True
      by (simp add: list_all2_conv_all_nth nth_list_update later_state_refl later_state_mark)
  next
    case False
    show ?thesis
    proof (cases "i < length ns")
      case True
      with False have ne: "ID (ns ! i) \<noteq> x" by simp
      have "snd (MarkAsRead_from i x ns) = snd (MarkAsRead_from (i + 1) x ns)"
        using True ne by (subst MarkAsRead_from.simps) simp
      then show ?thesis using "1.IH" [OF True ne] by simp
    next
      case False
      then have "snd (MarkAsRead_from i x ns) = ns"
        by (subst MarkAsRead_from.simps) simp
      then show ?thesis by (simp add: list_all2_refl later_state_refl)
    qed
  qed
qed

lemma notifications_MarkAsRead:
  "notifications (snd (MarkAsRead x r)) = snd (MarkAsRead_from 0 x (notifications r))"
  by (simp add: MarkAsRead_def split: prod.splits)

lemma persists_refl: "persists ns ns"
  unfolding persists_def
  by (rule exI [of _ "[]"], rule exI [of _ ns]) (simp add: list_all2_refl later_state_refl)

lemma persists_trans:
  assumes "persists a b" and "persists b c"
  shows "persists a c"
proof -
  from assms(1) obtain p1 t1 where b: "b = p1 @ t1" and l1: "list_all2 later_state a t1"
    unfolding persists_def by blast
  from assms(2) obtain p2 t2 where c: "c = p2 @ t2" and l2: "list_all2 later_state b t2"
    unfolding persists_def by blast
  from l2 b obtain us vs where t2: "t2 = us @ vs" and l3: "list_all2 later_state t1 vs"
    by (auto simp: list_all2_append1)
  have "list_all2 later_state a vs"
    using l1 l3 by (auto simp: list_all2_conv_all_nth later_state_def)
  moreover have "c = (p2 @ us) @ vs" using c t2 by simp
  ultimately show ?thesis unfolding persists_def by blast
qed

lemma step_persists:
  "\<not> clears x \<Longrightarrow> persists (notifications r) (notifications (step x r))"
proof (cases x)
  case (OpCreate n)
  have "notifications (step x r) = [n] @ notifications r"
    by (simp add: OpCreate Create_def)
  then show ?thesis
    unfolding persists_def by (metis list_all2_refl later_state_refl)
next
  case (OpMarkAsRead i)
  have "list_all2 later_state (notifications r) (notifications (step x r))"
    using MarkAsRead_from_later [of "notifications r" 0 i]
    by (simp add: OpMarkAsRead notifications_MarkAsRead)
  then show ?thesis unfolding persists_def by (metis append_Nil)
next
  case (OpCreateNotification title message now1 now2 now3)
  show ?thesis
  proof (cases "title = '''' \<or> message = ''''")
    case True
    then show ?thesis by (simp add: OpCreateNotification CreateNotification_def persists_refl)
  next
    case False
    then have "notifications (step x r)
                 = [\<lparr>ID = generateID now1 now2, Title = title, Message = message,
                      Timestamp = now3, Read = False\<rparr>] @ notifications r"
      by (simp add: OpCreateNotification CreateNotification_def Create_def Let_def)
    then show ?thesis
      unfolding persists_def by (metis list_all2_refl later_state_refl)
  qed
next
  case (OpMarkNotificationAsRead i)
  have "list_all2 later_state (notifications r) (notifications (step x r))"
    using MarkAsRead_from_later [of "notifications r" 0 i]
    by (simp add: OpMarkNotificationAsRead MarkNotificationAsRead_def notifications_MarkAsRead
        list_all2_refl later_state_refl)
  then show ?thesis unfolding persists_def by (metis append_Nil)
qed (simp_all add: persists_refl)

lemma run_persists:
  "\<forall>x \<in> set ops. \<not> clears x \<Longrightarrow> persists (notifications r) (notifications (run ops r))"
proof (induction ops arbitrary: r)
  case Nil
  show ?case by (simp add: persists_refl)
next
  case (Cons x xs)
  have "persists (notifications r) (notifications (step x r))"
    using Cons.prems by (simp add: step_persists)
  moreover have "persists (notifications (step x r)) (notifications (run xs (step x r)))"
    using Cons.prems by (intro Cons.IH) simp
  ultimately show ?case using persists_trans by simp
qed

lemma run_append: "run (xs @ ys) r = run ys (run xs r)"
  by (induction xs arbitrary: r) simp_all

lemma step_clears: "clears x \<Longrightarrow> step x r = r\<lparr>notifications := []\<rparr>"
  by (cases x) (simp_all add: Clear_def ClearAllNotifications_def)

lemma MarkAsRead_success:
  assumes "fst (MarkAsRead x r) = None"
  shows "\<exists>k < length (notifications r). ID (notifications r ! k) = x
           \<and> (\<forall>j < k. ID (notifications r ! j) \<noteq> x)
           \<and> notifications (snd (MarkAsRead x r))
               = (notifications r)[k := (notifications r ! k)\<lparr>Read := True\<rparr>]"
proof -
  have "x \<in> ID ` set (notifications r)"
  proof (rule ccontr)
    assume "x \<notin> ID ` set (notifications r)"
    then have "MarkAsRead_from 0 x (notifications r)
                 = (Some (NotFound ''notification not found''), notifications r)"
      by (intro MarkAsRead_from_absent) auto
    with assms show False by (simp add: MarkAsRead_def)
  qed
  then obtain k where k: "k < length (notifications r)" "ID (notifications r ! k) = x"
      "\<forall>j < k. ID (notifications r ! j) \<noteq> x"
    using first_match_exists by blast
  then have "MarkAsRead_from 0 x (notifications r)
               = (None, (notifications r)[k := (notifications r ! k)\<lparr>Read := True\<rparr>])"
    by (intro MarkAsRead_from_first) auto
  then have "notifications (snd (MarkAsRead x r))
               = (notifications r)[k := (notifications r ! k)\<lparr>Read := True\<rparr>]"
    by (simp add: MarkAsRead_def)
  with k show ?thesis by blast
qed

lemma persists_read_position:
  assumes "persists old new" and "k < length old" and "Read (old ! k)"
  shows "k + (length new - length old) < length new
         \<and> later_state (old ! k) (new ! (k + (length new - length old)))
         \<and> Read (new ! (k + (length new - length old)))
         \<and> new ! (k + (length new - length old)) \<notin> set (filter (\<lambda>n. \<not> Read n) new)"
proof -
  from assms(1) obtain pre t where n: "new = pre @ t" and l: "list_all2 later_state old t"
    unfolding persists_def by blast
  have len: "length t = length old" using l by (simp add: list_all2_lengthD)
  have pos: "k + (length new - length old) = length pre + k" using n len by simp
  have nth: "new ! (length pre + k) = t ! k" using n by (simp add: nth_append)
  have ls: "later_state (old ! k) (t ! k)" using l assms(2) by (rule list_all2_nthD)
  then have rd: "Read (t ! k)" using assms(3) by (simp add: later_state_def)
  show ?thesis
    using assms(2) len n ls rd unfolding pos nth by simp
qed

section \<open>Claims about the repository and the service\<close>

text \<open>
  C9. A freshly constructed repository is not empty: it holds exactly two records, with the
  identifiers "1" and "2" and the two titles of the source, both unread, so the first
  unread listing has length two.
\<close>

theorem seeded_repository:
  "notifications (NewInMemoryNotificationRepository now1 now2) \<noteq> []
   \<and> length (notifications (NewInMemoryNotificationRepository now1 now2)) = 2
   \<and> map ID (notifications (NewInMemoryNotificationRepository now1 now2)) = [''1'', ''2'']
   \<and> map Title (notifications (NewInMemoryNotificationRepository now1 now2))
       = [seed_title_1, seed_title_2]
   \<and> map Read (notifications (NewInMemoryNotificationRepository now1 now2)) = [False, False]
   \<and> GetUnread (NewInMemoryNotificationRepository now1 now2)
       = notifications (NewInMemoryNotificationRepository now1 now2)
   \<and> length (GetUnreadNotifications (NewInMemoryNotificationRepository now1 now2)) = 2"
  by (simp add: NewInMemoryNotificationRepository_def GetUnreadNotifications_def GetUnread_def)

text \<open>
  C5. For a non-empty title and a non-empty message, \<open>CreateNotification\<close> succeeds and
  returns an unread record; after the call that record is the head of the unread listing
  and of the full listing, and the earlier records follow in their earlier order.
\<close>

theorem create_prepends:
  assumes "title \<noteq> ''''" and "message \<noteq> ''''"
  shows "\<exists>n r'. CreateNotification title message now1 now2 now3 r = (Inr n, r')
           \<and> Read n = False \<and> Title n = title \<and> Message n = message \<and> Timestamp n = now3
           \<and> ID n = generateID now1 now2
           \<and> GetUnread r' = n # GetUnread r
           \<and> GetAll r' = n # GetAll r"
  using assms by (simp add: CreateNotification_def Create_def GetUnread_filter GetAll_def Let_def)

theorem create_prepends_witness:
  "''Build done'' \<noteq> '''' \<and> ''Target X compiled'' \<noteq> '''' \<and>
   (\<exists>n r'. CreateNotification ''Build done'' ''Target X compiled'' noon noon noon
              (NewInMemoryNotificationRepository noon noon) = (Inr n, r')
           \<and> Read n = False \<and> Title n = ''Build done'' \<and> Message n = ''Target X compiled''
           \<and> Timestamp n = noon
           \<and> ID n = generateID noon noon
           \<and> GetUnread r' = n # GetUnread (NewInMemoryNotificationRepository noon noon)
           \<and> GetAll r' = n # GetAll (NewInMemoryNotificationRepository noon noon))"
  using create_prepends [of "''Build done''" "''Target X compiled''" noon noon noon
      "NewInMemoryNotificationRepository noon noon"]
  by simp

text \<open>
  C2, as stated, fails: a title that is one space is empty after trimming, and
  \<open>CreateNotification\<close> accepts it and stores the record.
\<close>

theorem create_accepts_blank_title:
  "trim_space '' '' = '''' \<and>
   CreateNotification '' '' ''x'' noon noon noon \<lparr>notifications = []\<rparr>
     = (Inr \<lparr>ID = ''20240101120000-000'', Title = '' '', Message = ''x'', Timestamp = noon,
             Read = False\<rparr>,
        \<lparr>notifications = [\<lparr>ID = ''20240101120000-000'', Title = '' '', Message = ''x'',
                            Timestamp = noon, Read = False\<rparr>]\<rparr>)"
proof -
  have "generateID noon noon = ''20240101120000-000''"
    unfolding noon_def by code_simp
  then show ?thesis
    by (simp add: CreateNotification_def Create_def trim_space_def Let_def)
qed

text \<open>
  C2, amended. \<open>CreateNotification\<close> fails if and only if the title or the message is
  the empty string (nothing is trimmed); the failure is the invalid-argument error and
  leaves the repository as it was.
\<close>

theorem create_rejects_empty_only:
  "((\<exists>e. fst (CreateNotification title message now1 now2 now3 r) = Inl e)
      \<longleftrightarrow> title = '''' \<or> message = '''')
   \<and> (title = '''' \<or> message = '''' \<longrightarrow>
        CreateNotification title message now1 now2 now3 r
          = (Inl (InvalidArgument ''title and message are required''), r))"
  by (simp add: CreateNotification_def Create_def Let_def)

theorem create_rejects_empty_only_witness:
  "(\<exists>e. fst (CreateNotification '''' ''x'' noon noon noon
                 (NewInMemoryNotificationRepository noon noon)) = Inl e)
   \<and> CreateNotification '''' ''x'' noon noon noon (NewInMemoryNotificationRepository noon noon)
     = (Inl (InvalidArgument ''title and message are required''),
        NewInMemoryNotificationRepository noon noon)"
  using create_rejects_empty_only [of "''''" "''x''" noon noon noon
      "NewInMemoryNotificationRepository noon noon"]
  by blast

text \<open>
  C6. \<open>MarkNotificationAsRead\<close> fails with the invalid-argument error on the empty
  identifier, whatever the repository holds; it fails with the not-found error on a
  non-empty identifier that no record has; both failures leave the repository as it was;
  and it succeeds when a record has the identifier.
\<close>

theorem mark_read_errors:
  "MarkNotificationAsRead '''' r = (Some (InvalidArgument ''notification ID is required''), r)
   \<and> (x \<noteq> '''' \<and> x \<notin> ID ` set (notifications r) \<longrightarrow>
        MarkNotificationAsRead x r = (Some (NotFound ''notification not found''), r))
   \<and> (x \<noteq> '''' \<and> x \<in> ID ` set (notifications r) \<longrightarrow>
        fst (MarkNotificationAsRead x r) = None)"
proof (intro conjI impI)
  show "MarkNotificationAsRead '''' r = (Some (InvalidArgument ''notification ID is required''), r)"
    by (simp add: MarkNotificationAsRead_def)
next
  assume a: "x \<noteq> '''' \<and> x \<notin> ID ` set (notifications r)"
  then have "MarkAsRead_from 0 x (notifications r)
               = (Some (NotFound ''notification not found''), notifications r)"
    by (intro MarkAsRead_from_absent) auto
  with a show "MarkNotificationAsRead x r = (Some (NotFound ''notification not found''), r)"
    by (simp add: MarkNotificationAsRead_def MarkAsRead_def)
next
  assume a: "x \<noteq> '''' \<and> x \<in> ID ` set (notifications r)"
  then obtain k where k: "k < length (notifications r)" "ID (notifications r ! k) = x"
      "\<forall>j < k. ID (notifications r ! j) \<noteq> x"
    using first_match_exists [of x "notifications r"] by blast
  then have "MarkAsRead_from 0 x (notifications r)
               = (None, (notifications r)[k := (notifications r ! k)\<lparr>Read := True\<rparr>])"
    by (intro MarkAsRead_from_first) auto
  with a show "fst (MarkNotificationAsRead x r) = None"
    by (simp add: MarkNotificationAsRead_def MarkAsRead_def)
qed

theorem mark_read_errors_witness:
  "MarkNotificationAsRead ''unknown'' (NewInMemoryNotificationRepository noon noon)
     = (Some (NotFound ''notification not found''), NewInMemoryNotificationRepository noon noon)
   \<and> fst (MarkNotificationAsRead ''2'' (NewInMemoryNotificationRepository noon noon)) = None
   \<and> MarkNotificationAsRead ''''
        \<lparr>notifications = [\<lparr>ID = '''', Title = ''t'', Message = ''m'', Timestamp = noon,
                            Read = False\<rparr>]\<rparr>
     = (Some (InvalidArgument ''notification ID is required''),
        \<lparr>notifications = [\<lparr>ID = '''', Title = ''t'', Message = ''m'', Timestamp = noon,
                            Read = False\<rparr>]\<rparr>)"
  using mark_read_errors [of "NewInMemoryNotificationRepository noon noon" "''unknown''"]
    mark_read_errors [of "NewInMemoryNotificationRepository noon noon" "''2''"]
    mark_read_errors [of "\<lparr>notifications = [\<lparr>ID = '''', Title = ''t'', Message = ''m'',
        Timestamp = noon, Read = False\<rparr>]\<rparr>" "''2''"]
  by (simp add: NewInMemoryNotificationRepository_def)

text \<open>
  C10. \<open>MarkAsRead\<close> sets the flag of the first record with the identifier, the most
  recently inserted one, returns success, and leaves every other record as it was, the
  later records with the same identifier included.
\<close>

theorem mark_read_first_match_only:
  assumes "k < length (notifications r)"
    and "ID (notifications r ! k) = x"
    and "\<forall>j < k. ID (notifications r ! j) \<noteq> x"
  shows "MarkAsRead x r
           = (None, r\<lparr>notifications := (notifications r)[k := (notifications r ! k)\<lparr>Read := True\<rparr>]\<rparr>)
         \<and> Read (notifications (snd (MarkAsRead x r)) ! k)
         \<and> (\<forall>j < length (notifications r). j \<noteq> k \<longrightarrow>
               notifications (snd (MarkAsRead x r)) ! j = notifications r ! j)"
proof -
  have "MarkAsRead_from 0 x (notifications r)
          = (None, (notifications r)[k := (notifications r ! k)\<lparr>Read := True\<rparr>])"
    using assms by (intro MarkAsRead_from_first) auto
  then show ?thesis using assms(1) by (simp add: MarkAsRead_def)
qed

theorem mark_read_first_match_only_witness:
  "MarkAsRead ''7''
     \<lparr>notifications =
        [\<lparr>ID = ''9'', Title = ''c'', Message = ''m'', Timestamp = noon, Read = False\<rparr>,
         \<lparr>ID = ''7'', Title = ''b'', Message = ''m'', Timestamp = noon, Read = False\<rparr>,
         \<lparr>ID = ''7'', Title = ''a'', Message = ''m'', Timestamp = noon, Read = False\<rparr>]\<rparr>
   = (None,
      \<lparr>notifications =
        [\<lparr>ID = ''9'', Title = ''c'', Message = ''m'', Timestamp = noon, Read = False\<rparr>,
         \<lparr>ID = ''7'', Title = ''b'', Message = ''m'', Timestamp = noon, Read = True\<rparr>,
         \<lparr>ID = ''7'', Title = ''a'', Message = ''m'', Timestamp = noon, Read = False\<rparr>]\<rparr>)"
  using mark_read_first_match_only [of 1
      "\<lparr>notifications =
        [\<lparr>ID = ''9'', Title = ''c'', Message = ''m'', Timestamp = noon, Read = False\<rparr>,
         \<lparr>ID = ''7'', Title = ''b'', Message = ''m'', Timestamp = noon, Read = False\<rparr>,
         \<lparr>ID = ''7'', Title = ''a'', Message = ''m'', Timestamp = noon, Read = False\<rparr>]\<rparr>"
      "''7''"]
  by simp

text \<open>
  C4. Over every sequence of operations of the repository and the service that clears
  nothing, the records of the repository persist in their order behind the records
  created since, each with its identifier, title, message and timestamp, and with a read
  flag that is set if it was set before. So once \<open>MarkAsRead\<close> has succeeded for an
  identifier, the record it marked stays read and is in no unread listing after any
  further such operations, \<open>MarkAsRead\<close> on this or another identifier included; the
  service's \<open>MarkNotificationAsRead\<close> is \<open>MarkAsRead\<close> on a non-empty identifier. An
  operation that clears removes every record: what follows starts from the empty
  repository.
\<close>

theorem read_flag_never_reverts:
  "((\<forall>y \<in> set ops. \<not> clears y) \<longrightarrow>
      persists (notifications r) (notifications (run ops r)))
   \<and> (fst (MarkAsRead x r) = None \<longrightarrow>
      (\<exists>k < length (notifications (snd (MarkAsRead x r))).
         ID (notifications (snd (MarkAsRead x r)) ! k) = x
         \<and> Read (notifications (snd (MarkAsRead x r)) ! k)
         \<and> (\<forall>more. (\<forall>y \<in> set more. \<not> clears y) \<longrightarrow>
               (let k' = k + (length (notifications (run more (snd (MarkAsRead x r))))
                              - length (notifications (snd (MarkAsRead x r))))
                in k' < length (notifications (run more (snd (MarkAsRead x r))))
                   \<and> later_state (notifications (snd (MarkAsRead x r)) ! k)
                         (notifications (run more (snd (MarkAsRead x r))) ! k')
                   \<and> Read (notifications (run more (snd (MarkAsRead x r))) ! k')
                   \<and> notifications (run more (snd (MarkAsRead x r))) ! k'
                         \<notin> set (GetUnread (run more (snd (MarkAsRead x r))))))))
   \<and> (x \<noteq> '''' \<longrightarrow> MarkNotificationAsRead x r = MarkAsRead x r)
   \<and> (clears c \<longrightarrow>
        run (before @ c # after) r = run after ((run before r)\<lparr>notifications := []\<rparr>)
        \<and> GetUnread (step c r) = [] \<and> GetAll (step c r) = [])"
proof (intro conjI impI)
  assume "\<forall>y \<in> set ops. \<not> clears y"
  then show "persists (notifications r) (notifications (run ops r))"
    by (rule run_persists)
next
  assume ok: "fst (MarkAsRead x r) = None"
  define r1 where "r1 = snd (MarkAsRead x r)"
  from MarkAsRead_success [OF ok] obtain k where k: "k < length (notifications r)"
      "ID (notifications r ! k) = x"
      "notifications r1 = (notifications r)[k := (notifications r ! k)\<lparr>Read := True\<rparr>]"
    unfolding r1_def by blast
  have k1: "k < length (notifications r1)" using k by simp
  have id1: "ID (notifications r1 ! k) = x" using k by simp
  have rd1: "Read (notifications r1 ! k)" using k by simp
  have "\<forall>more. (\<forall>y \<in> set more. \<not> clears y) \<longrightarrow>
          (let k' = k + (length (notifications (run more r1)) - length (notifications r1))
           in k' < length (notifications (run more r1))
              \<and> later_state (notifications r1 ! k) (notifications (run more r1) ! k')
              \<and> Read (notifications (run more r1) ! k')
              \<and> notifications (run more r1) ! k' \<notin> set (GetUnread (run more r1)))"
  proof (intro allI impI)
    fix more assume "\<forall>y \<in> set more. \<not> clears y"
    then have "persists (notifications r1) (notifications (run more r1))"
      by (rule run_persists)
    from persists_read_position [OF this k1 rd1]
    show "let k' = k + (length (notifications (run more r1)) - length (notifications r1))
           in k' < length (notifications (run more r1))
              \<and> later_state (notifications r1 ! k) (notifications (run more r1) ! k')
              \<and> Read (notifications (run more r1) ! k')
              \<and> notifications (run more r1) ! k' \<notin> set (GetUnread (run more r1))"
      by (simp add: Let_def GetUnread_filter)
  qed
  with k1 id1 rd1
  show "\<exists>k < length (notifications (snd (MarkAsRead x r))).
         ID (notifications (snd (MarkAsRead x r)) ! k) = x
         \<and> Read (notifications (snd (MarkAsRead x r)) ! k)
         \<and> (\<forall>more. (\<forall>y \<in> set more. \<not> clears y) \<longrightarrow>
               (let k' = k + (length (notifications (run more (snd (MarkAsRead x r))))
                              - length (notifications (snd (MarkAsRead x r))))
                in k' < length (notifications (run more (snd (MarkAsRead x r))))
                   \<and> later_state (notifications (snd (MarkAsRead x r)) ! k)
                         (notifications (run more (snd (MarkAsRead x r))) ! k')
                   \<and> Read (notifications (run more (snd (MarkAsRead x r))) ! k')
                   \<and> notifications (run more (snd (MarkAsRead x r))) ! k'
                         \<notin> set (GetUnread (run more (snd (MarkAsRead x r))))))"
    unfolding r1_def by blast
next
  assume "x \<noteq> ''''"
  then show "MarkNotificationAsRead x r = MarkAsRead x r"
    by (simp add: MarkNotificationAsRead_def)
next
  assume c: "clears c"
  show "run (before @ c # after) r = run after ((run before r)\<lparr>notifications := []\<rparr>)"
    by (simp add: run_append step_clears [OF c])
  show "GetUnread (step c r) = []"
    by (simp add: step_clears [OF c] GetUnread_def)
  show "GetAll (step c r) = []"
    by (simp add: step_clears [OF c] GetAll_def)
qed

theorem read_flag_never_reverts_witness:
  "persists (notifications (NewInMemoryNotificationRepository noon noon))
     (notifications (run [OpMarkNotificationAsRead ''1'',
                          OpCreateNotification ''Build done'' ''ok'' noon noon noon,
                          OpMarkAsRead ''2'', OpGetUnread]
                       (NewInMemoryNotificationRepository noon noon)))
   \<and> fst (MarkAsRead ''1'' (NewInMemoryNotificationRepository noon noon)) = None
   \<and> (\<exists>k < length (notifications (snd (MarkAsRead ''1''
                        (NewInMemoryNotificationRepository noon noon)))).
         ID (notifications (snd (MarkAsRead ''1''
               (NewInMemoryNotificationRepository noon noon))) ! k) = ''1''
         \<and> notifications
              (run [OpMarkAsRead ''1'', OpCreateNotification ''Build done'' ''ok'' noon noon noon,
                    OpMarkNotificationAsRead ''2'']
                 (snd (MarkAsRead ''1'' (NewInMemoryNotificationRepository noon noon))))
             ! (k + (length (notifications
                       (run [OpMarkAsRead ''1'',
                             OpCreateNotification ''Build done'' ''ok'' noon noon noon,
                             OpMarkNotificationAsRead ''2'']
                          (snd (MarkAsRead ''1'' (NewInMemoryNotificationRepository noon noon)))))
                     - length (notifications (snd (MarkAsRead ''1''
                         (NewInMemoryNotificationRepository noon noon))))))
           \<notin> set (GetUnread
                 (run [OpMarkAsRead ''1'', OpCreateNotification ''Build done'' ''ok'' noon noon noon,
                       OpMarkNotificationAsRead ''2'']
                    (snd (MarkAsRead ''1'' (NewInMemoryNotificationRepository noon noon))))))
   \<and> MarkNotificationAsRead ''1'' (NewInMemoryNotificationRepository noon noon)
     = MarkAsRead ''1'' (NewInMemoryNotificationRepository noon noon)
   \<and> GetUnread (step OpClearAllNotifications (NewInMemoryNotificationRepository noon noon)) = []"
proof -
  note t = read_flag_never_reverts [of
      "[OpMarkNotificationAsRead ''1'', OpCreateNotification ''Build done'' ''ok'' noon noon noon,
        OpMarkAsRead ''2'', OpGetUnread]"
      "NewInMemoryNotificationRepository noon noon" "''1''" OpClearAllNotifications "[]" "[]"]
  have h1: "\<forall>y \<in> set [OpMarkNotificationAsRead ''1'',
                         OpCreateNotification ''Build done'' ''ok'' noon noon noon,
                         OpMarkAsRead ''2'', OpGetUnread]. \<not> clears y"
    by simp
  have h2: "''1'' \<noteq> ''''" by simp
  have h3: "clears OpClearAllNotifications" by simp
  have "MarkAsRead_from 0 ''1'' (notifications (NewInMemoryNotificationRepository noon noon))
          = (None, (notifications (NewInMemoryNotificationRepository noon noon))
               [0 := (notifications (NewInMemoryNotificationRepository noon noon) ! 0)
                       \<lparr>Read := True\<rparr>])"
    by (rule MarkAsRead_from_first) (simp_all add: NewInMemoryNotificationRepository_def)
  then have h4: "fst (MarkAsRead ''1'' (NewInMemoryNotificationRepository noon noon)) = None"
    by (simp add: MarkAsRead_def)
  have h5: "\<forall>y \<in> set [OpMarkAsRead ''1'',
                         OpCreateNotification ''Build done'' ''ok'' noon noon noon,
                         OpMarkNotificationAsRead ''2'']. \<not> clears y"
    by simp
  from t [THEN conjunct2, THEN conjunct1, THEN mp, OF h4]
  obtain k where k: "k < length (notifications (snd (MarkAsRead ''1''
                        (NewInMemoryNotificationRepository noon noon))))"
      "ID (notifications (snd (MarkAsRead ''1''
               (NewInMemoryNotificationRepository noon noon))) ! k) = ''1''"
    and later: "\<And>more. \<forall>y \<in> set more. \<not> clears y \<Longrightarrow>
      notifications (run more (snd (MarkAsRead ''1'' (NewInMemoryNotificationRepository noon noon))))
        ! (k + (length (notifications
                  (run more (snd (MarkAsRead ''1'' (NewInMemoryNotificationRepository noon noon)))))
                - length (notifications (snd (MarkAsRead ''1''
                    (NewInMemoryNotificationRepository noon noon))))))
      \<notin> set (GetUnread
            (run more (snd (MarkAsRead ''1'' (NewInMemoryNotificationRepository noon noon)))))"
    unfolding Let_def by blast
  show ?thesis
    using t [THEN conjunct1, THEN mp, OF h1] h4 k later [OF h5]
      t [THEN conjunct2, THEN conjunct2, THEN conjunct1, THEN mp, OF h2]
      t [THEN conjunct2, THEN conjunct2, THEN conjunct2, THEN mp, OF h3]
    by blast
qed

section \<open>Claims about identifiers\<close>

text \<open>
  The layout \<^verbatim>\<open>000\<close> holds no layout element, so \<open>Format\<close> copies it: the
  identifier ends in \<^verbatim>\<open>-000\<close> at every instant, and two instants of the same second
  get the same identifier. The calls at 100 ms and at 900 ms after noon do.
\<close>

lemma same_second_same_identifier:
  "unix_nano noon_100ms \<noteq> unix_nano noon_900ms
   \<and> generateID noon_100ms (Add noon_100ms 150) = ''20240101120000-000''
   \<and> generateID noon_900ms (Add noon_900ms 150) = ''20240101120000-000''
   \<and> map ID (notifications
        (run [OpCreateNotification ''Build done'' ''first'' noon_100ms (Add noon_100ms 150)
                (Add noon_100ms 300),
              OpCreateNotification ''Build done'' ''second'' noon_900ms (Add noon_900ms 150)
                (Add noon_900ms 300)]
           \<lparr>notifications = []\<rparr>))
       = [''20240101120000-000'', ''20240101120000-000'']"
proof -
  have a: "generateID noon_100ms (Add noon_100ms 150) = ''20240101120000-000''"
    unfolding noon_100ms_def Add_def by code_simp
  have b: "generateID noon_900ms (Add noon_900ms 150) = ''20240101120000-000''"
    unfolding noon_900ms_def Add_def by code_simp
  have c: "unix_nano noon_100ms \<noteq> unix_nano noon_900ms"
    by (simp add: noon_100ms_def noon_900ms_def)
  show ?thesis
    using a b c by (simp add: CreateNotification_def Create_def Let_def)
qed

text \<open>
  C1, as stated, fails: two calls of \<open>CreateNotification\<close> 200 microseconds apart, at
  different instants of the same millisecond, get the same identifier, and the
  repository then holds two records with it.
\<close>

theorem create_duplicate_identifier:
  "unix_nano noon \<noteq> unix_nano (Add noon 200000)
   \<and> map ID (notifications
        (run [OpCreateNotification ''Build done'' ''first'' noon (Add noon 150) (Add noon 300),
              OpCreateNotification ''Build done'' ''second'' (Add noon 200000)
                (Add noon 200150) (Add noon 200300)]
           \<lparr>notifications = []\<rparr>))
       = [''20240101120000-000'', ''20240101120000-000'']"
proof -
  have a: "generateID noon (Add noon 150) = ''20240101120000-000''"
    unfolding noon_def Add_def by code_simp
  have b: "generateID (Add noon 200000) (Add noon 200150) = ''20240101120000-000''"
    unfolding noon_def Add_def by code_simp
  have c: "unix_nano noon \<noteq> unix_nano (Add noon 200000)"
    by (simp add: noon_def Add_def)
  show ?thesis
    using a b c by (simp add: CreateNotification_def Create_def Let_def)
qed

text \<open>
  C1, amended. Nothing checks identifiers: \<open>CreateNotification\<close> takes the identifier from
  its clock readings alone and puts the record in front whatever the repository holds. In
  a repository whose identifiers are distinct, the new identifier is distinct from those
  present exactly when the text made from the clock readings is not one of them.
\<close>

theorem create_identifier_from_clock:
  assumes "title \<noteq> ''''" and "message \<noteq> ''''"
  shows "\<exists>n. CreateNotification title message now1 now2 now3 r
               = (Inr n, r\<lparr>notifications := n # notifications r\<rparr>)
           \<and> ID n = generateID now1 now2
           \<and> (distinct (map ID (notifications r)) \<longrightarrow>
                (distinct (map ID (n # notifications r))
                 \<longleftrightarrow> generateID now1 now2 \<notin> ID ` set (notifications r)))"
  using assms by (simp add: CreateNotification_def Create_def Let_def)

theorem create_identifier_from_clock_witness:
  "fst (CreateNotification ''Build done'' ''ok'' noon (Add noon 150) (Add noon 300)
          (NewInMemoryNotificationRepository noon noon))
     = Inr \<lparr>ID = ''20240101120000-000'', Title = ''Build done'', Message = ''ok'',
             Timestamp = Add noon 300, Read = False\<rparr>
   \<and> distinct (map ID (notifications
         (snd (CreateNotification ''Build done'' ''ok'' noon (Add noon 150) (Add noon 300)
            (NewInMemoryNotificationRepository noon noon)))))"
proof -
  have g: "generateID noon (Add noon 150) = ''20240101120000-000''"
    unfolding noon_def Add_def by code_simp
  have t: "''Build done'' \<noteq> ''''" and m: "''ok'' \<noteq> ''''" by simp_all
  have d: "distinct (map ID (notifications (NewInMemoryNotificationRepository noon noon)))"
    by (simp add: NewInMemoryNotificationRepository_def)
  have f: "''20240101120000-000''
             \<notin> ID ` set (notifications (NewInMemoryNotificationRepository noon noon))"
    by (simp add: NewInMemoryNotificationRepository_def)
  from create_identifier_from_clock [OF t m, of noon "Add noon 150" "Add noon 300"
      "NewInMemoryNotificationRepository noon noon"]
  obtain n where n: "CreateNotification ''Build done'' ''ok'' noon (Add noon 150) (Add noon 300)
        (NewInMemoryNotificationRepository noon noon)
      = (Inr n, (NewInMemoryNotificationRepository noon noon)
           \<lparr>notifications := n # notifications (NewInMemoryNotificationRepository noon noon)\<rparr>)"
    and i: "ID n = generateID noon (Add noon 150)"
    and u: "distinct (map ID (notifications (NewInMemoryNotificationRepository noon noon))) \<longrightarrow>
             (distinct (map ID (n # notifications (NewInMemoryNotificationRepository noon noon)))
              \<longleftrightarrow> generateID noon (Add noon 150)
                    \<notin> ID ` set (notifications (NewInMemoryNotificationRepository noon noon)))"
    by blast
  have "distinct (map ID (n # notifications (NewInMemoryNotificationRepository noon noon)))"
    using u d f g by simp
  moreover have "n = \<lparr>ID = ''20240101120000-000'', Title = ''Build done'', Message = ''ok'',
             Timestamp = Add noon 300, Read = False\<rparr>"
    using n g by (simp add: CreateNotification_def Create_def Let_def)
  ultimately show ?thesis using n by simp
qed

section \<open>Claims about the connections\<close>

text \<open>
  C3. \<open>BroadcastNotification\<close> writes the frame once to every registered connection,
  whatever the order of the visit. A connection whose write fails is removed from the
  registry and closed; every registered connection whose write succeeds gets the frame
  and stays registered. The method has no error to return, however many writes fail.
\<close>

theorem broadcast_isolates_failures:
  assumes "set order = dom (clients w)" and "distinct order"
  shows "written (snd (BroadcastNotification fails order notification (w, out)))
           = written out @ map (\<lambda>c. (c, \<lparr>Type = ''notification'', Notification = Some notification,
                                           Notifications = [], NotificationID = ''''\<rparr>)) order
         \<and> clients (fst (BroadcastNotification fails order notification (w, out)))
           = (\<lambda>c. if fails c then None else clients w c)
         \<and> dom (clients (fst (BroadcastNotification fails order notification (w, out))))
           = {c \<in> dom (clients w). \<not> fails c}
         \<and> outbox (snd (BroadcastNotification fails order notification (w, out)))
           = (\<lambda>c. if c \<in> dom (clients w) \<and> \<not> fails c
                   then outbox out c @ [\<lparr>Type = ''notification'', Notification = Some notification,
                                          Notifications = [], NotificationID = ''''\<rparr>]
                   else outbox out c)
         \<and> closed (snd (BroadcastNotification fails order notification (w, out)))
           = closed out \<union> {c \<in> dom (clients w). fails c}"
proof -
  have c: "clients (fst (BroadcastNotification fails order notification (w, out)))
             = (\<lambda>c. if fails c then None else clients w c)"
    using assms(1)
    by (auto simp: BroadcastNotification_def broadcast_loop_clients fun_eq_iff domIff)
  have d: "dom (clients (fst (BroadcastNotification fails order notification (w, out))))
             = {c \<in> dom (clients w). \<not> fails c}"
    unfolding c by (auto split: if_splits)
  show ?thesis
    using assms c d
    by (simp add: BroadcastNotification_def broadcast_loop_written broadcast_loop_outbox
        broadcast_loop_closed)
qed

theorem broadcast_isolates_failures_witness:
  "clients (fst (BroadcastNotification (\<lambda>c. c = 1) [1, 2] build_done
       (\<lparr>clients = [1 \<mapsto> True, 2 \<mapsto> True]\<rparr>,
        \<lparr>written = [], outbox = (\<lambda>c. []), closed = {}, logged = []\<rparr>))) 1 = None
   \<and> clients (fst (BroadcastNotification (\<lambda>c. c = 1) [1, 2] build_done
       (\<lparr>clients = [1 \<mapsto> True, 2 \<mapsto> True]\<rparr>,
        \<lparr>written = [], outbox = (\<lambda>c. []), closed = {}, logged = []\<rparr>))) 2 = Some True
   \<and> outbox (snd (BroadcastNotification (\<lambda>c. c = 1) [1, 2] build_done
       (\<lparr>clients = [1 \<mapsto> True, 2 \<mapsto> True]\<rparr>,
        \<lparr>written = [], outbox = (\<lambda>c. []), closed = {}, logged = []\<rparr>))) 2
      = [\<lparr>Type = ''notification'', Notification = Some build_done, Notifications = [],
          NotificationID = ''''\<rparr>]
   \<and> outbox (snd (BroadcastNotification (\<lambda>c. c = 1) [1, 2] build_done
       (\<lparr>clients = [1 \<mapsto> True, 2 \<mapsto> True]\<rparr>,
        \<lparr>written = [], outbox = (\<lambda>c. []), closed = {}, logged = []\<rparr>))) 1 = []"
proof -
  have "set [1, 2 :: nat] = dom [1 \<mapsto> True, 2 :: nat \<mapsto> True]" by auto
  moreover have "distinct [1, 2 :: nat]" by simp
  ultimately show ?thesis
    using broadcast_isolates_failures [of "[1, 2]" "\<lparr>clients = [1 \<mapsto> True, 2 \<mapsto> True]\<rparr>"
        "\<lambda>c. c = 1" build_done
        "\<lparr>written = [], outbox = (\<lambda>c. []), closed = {}, logged = []\<rparr>"]
    by simp
qed

text \<open>
  C8. For one frame handled by the read loop: a frame of type \<^verbatim>\<open>get_notifications\<close>
  makes exactly one write, of a \<^verbatim>\<open>notifications_list\<close> frame with the current unread
  listing, on the connection the frame came from (the frame reaches the connection
  unless that write fails), and leaves the repository as it was. A frame of any other
  type (\<^verbatim>\<open>mark_read\<close>, \<^verbatim>\<open>clear_all\<close>, unknown) makes no write on any connection; its
  error, if any, goes to the log and nowhere else.
\<close>

theorem handle_frame_replies:
  "(Type msg = ''get_notifications'' \<longrightarrow>
      written (snd (handle_frame fails conn msg (r, out)))
        = written out @ [(conn, \<lparr>Type = ''notifications_list'', Notification = None,
                                  Notifications = GetUnread r, NotificationID = ''''\<rparr>)]
      \<and> outbox (snd (handle_frame fails conn msg (r, out)))
        = (if fails conn then outbox out
           else (outbox out)(conn := outbox out conn
                  @ [\<lparr>Type = ''notifications_list'', Notification = None,
                      Notifications = GetUnread r, NotificationID = ''''\<rparr>]))
      \<and> fst (handle_frame fails conn msg (r, out)) = r)
   \<and> (Type msg \<noteq> ''get_notifications'' \<longrightarrow>
      written (snd (handle_frame fails conn msg (r, out))) = written out
      \<and> outbox (snd (handle_frame fails conn msg (r, out))) = outbox out
      \<and> closed (snd (handle_frame fails conn msg (r, out))) = closed out
      \<and> logged (snd (handle_frame fails conn msg (r, out)))
        = (case fst (HandleMessage fails conn msg (r, out)) of
             None \<Rightarrow> logged out
           | Some err \<Rightarrow> logged out @ [HandlingError err]))"
proof (intro conjI impI)
  assume t: "Type msg = ''get_notifications''"
  show "written (snd (handle_frame fails conn msg (r, out)))
        = written out @ [(conn, \<lparr>Type = ''notifications_list'', Notification = None,
                                  Notifications = GetUnread r, NotificationID = ''''\<rparr>)]"
    by (simp add: handle_frame_def HandleMessage_get_notifications [OF t] WriteJSON_def
        Let_def Printf_def)
  show "outbox (snd (handle_frame fails conn msg (r, out)))
        = (if fails conn then outbox out
           else (outbox out)(conn := outbox out conn
                  @ [\<lparr>Type = ''notifications_list'', Notification = None,
                      Notifications = GetUnread r, NotificationID = ''''\<rparr>]))"
    by (simp add: handle_frame_def HandleMessage_get_notifications [OF t] WriteJSON_def
        Let_def Printf_def)
  show "fst (handle_frame fails conn msg (r, out)) = r"
    by (simp add: handle_frame_def HandleMessage_get_notifications [OF t] WriteJSON_def
        Let_def Printf_def)
next
  assume t: "Type msg \<noteq> ''get_notifications''"
  obtain e r' out' where h: "HandleMessage fails conn msg (r, out) = (e, r', out')"
    by (cases "HandleMessage fails conn msg (r, out)") auto
  have o: "out' = out"
    using HandleMessage_other_outside [OF t, of fails conn r out] h by simp
  show "written (snd (handle_frame fails conn msg (r, out))) = written out"
    by (simp add: handle_frame_def h o Printf_def split: option.splits)
  show "outbox (snd (handle_frame fails conn msg (r, out))) = outbox out"
    by (simp add: handle_frame_def h o Printf_def split: option.splits)
  show "closed (snd (handle_frame fails conn msg (r, out))) = closed out"
    by (simp add: handle_frame_def h o Printf_def split: option.splits)
  show "logged (snd (handle_frame fails conn msg (r, out)))
        = (case fst (HandleMessage fails conn msg (r, out)) of
             None \<Rightarrow> logged out
           | Some err \<Rightarrow> logged out @ [HandlingError err])"
    by (simp add: handle_frame_def h o Printf_def split: option.splits)
qed

theorem handle_frame_replies_witness:
  "written (snd (handle_frame (\<lambda>c. False) 3
       \<lparr>Type = ''get_notifications'', Notification = None, Notifications = [],
         NotificationID = ''''\<rparr>
       (NewInMemoryNotificationRepository noon noon,
        \<lparr>written = [], outbox = (\<lambda>c. []), closed = {}, logged = []\<rparr>)))
     = [(3, \<lparr>Type = ''notifications_list'', Notification = None,
              Notifications = GetUnread (NewInMemoryNotificationRepository noon noon),
              NotificationID = ''''\<rparr>)]
   \<and> written (snd (handle_frame (\<lambda>c. False) 3
       \<lparr>Type = ''mark_read'', Notification = None, Notifications = [],
         NotificationID = ''unknown''\<rparr>
       (NewInMemoryNotificationRepository noon noon,
        \<lparr>written = [], outbox = (\<lambda>c. []), closed = {}, logged = []\<rparr>))) = []
   \<and> outbox (snd (handle_frame (\<lambda>c. False) 3
       \<lparr>Type = ''mark_read'', Notification = None, Notifications = [],
         NotificationID = ''unknown''\<rparr>
       (NewInMemoryNotificationRepository noon noon,
        \<lparr>written = [], outbox = (\<lambda>c. []), closed = {}, logged = []\<rparr>))) = (\<lambda>c. [])"
  using handle_frame_replies [of
      "\<lparr>Type = ''get_notifications'', Notification = None, Notifications = [],
        NotificationID = ''''\<rparr>"
      "\<lambda>c. False" 3 "NewInMemoryNotificationRepository noon noon"
      "\<lparr>written = [], outbox = (\<lambda>c. []), closed = {}, logged = []\<rparr>"]
    handle_frame_replies [of
      "\<lparr>Type = ''mark_read'', Notification = None, Notifications = [],
        NotificationID = ''unknown''\<rparr>"
      "\<lambda>c. False" 3 "NewInMemoryNotificationRepository noon noon"
      "\<lparr>written = [], outbox = (\<lambda>c. []), closed = {}, logged = []\<rparr>"]
  by simp

end
